theory Spec2Isabelle
  imports Main "HOL-Library.AList"
begin

section \<open>Values of the game\<close>

text \<open>
  The board cells hold the one-character strings \<^verbatim>\<open>" "\<close>, \<^verbatim>\<open>"B"\<close> and \<^verbatim>\<open>"W"\<close>; the game state
  and the current player are the strings \<^verbatim>\<open>"UNFINISHED"\<close>, \<^verbatim>\<open>"WHITE_WON"\<close>, \<^verbatim>\<open>"BLACK_WON"\<close> and
  \<^verbatim>\<open>"BLACK"\<close>, \<^verbatim>\<open>"WHITE"\<close>. No other value is ever stored, so each is a datatype.
  The exceptions Python can raise in the modelled code are values of \<open>error\<close>.
\<close>

datatype stone = Empty | B | W

datatype status = UNFINISHED | WHITE_WON | BLACK_WON

datatype player = BLACK | WHITE

datatype error = IndexError | KeyError | ValueError

type_synonym coord = "int \<times> int"

type_synonym board = "stone list list"

text \<open>
  Python does not fix the order in which a \<^verbatim>\<open>set\<close> is iterated. Wherever the code iterates
  a set, the model iterates the list \<open>ord xs\<close>, where \<open>xs\<close> is the sequence in which the
  elements were inserted and \<open>ord\<close> is a parameter. A sensible \<open>ord\<close> satisfies
  \<open>set_order_ok\<close>.
\<close>

type_synonym set_order = "coord list \<Rightarrow> coord list"

definition set_order_ok :: "set_order \<Rightarrow> bool" where
  "set_order_ok ord = (\<forall>xs. distinct (ord xs) \<and> set (ord xs) = set xs)"

section \<open>Python lists and exceptions\<close>

definition bindE :: "error + 'a \<Rightarrow> ('a \<Rightarrow> error + 'b) \<Rightarrow> error + 'b" where
  "bindE m f = (case m of Inl e \<Rightarrow> Inl e | Inr v \<Rightarrow> f v)"

text \<open>A \<^verbatim>\<open>for\<close> loop over a list whose body may raise: the first exception ends the loop.\<close>

fun foldE :: "('a \<Rightarrow> 's \<Rightarrow> error + 's) \<Rightarrow> 'a list \<Rightarrow> 's \<Rightarrow> error + 's" where
  "foldE f [] s = Inr s"
| "foldE f (x # xs) s = (case f x s of Inl e \<Rightarrow> Inl e | Inr s' \<Rightarrow> foldE f xs s')"

text \<open>\<^verbatim>\<open>xs[i]\<close> and \<^verbatim>\<open>xs[i] = v\<close>: a negative index counts from the end, anything outside
  \<open>-len \<le> i < len\<close> raises IndexError.\<close>

definition py_get :: "'a list \<Rightarrow> int \<Rightarrow> error + 'a" where
  "py_get xs i =
     (let n = int (length xs); k = (if i < 0 then i + n else i)
      in if 0 \<le> k \<and> k < n then Inr (xs ! nat k) else Inl IndexError)"

definition py_set :: "'a list \<Rightarrow> int \<Rightarrow> 'a \<Rightarrow> error + 'a list" where
  "py_set xs i v =
     (let n = int (length xs); k = (if i < 0 then i + n else i)
      in if 0 \<le> k \<and> k < n then Inr (xs[nat k := v]) else Inl IndexError)"

text \<open>\<^verbatim>\<open>board[r][c]\<close> and \<^verbatim>\<open>board[r][c] = v\<close> on the list of rows.\<close>

definition bget :: "board \<Rightarrow> coord \<Rightarrow> error + stone" where
  "bget b p = bindE (py_get b (fst p)) (\<lambda>row. py_get row (snd p))"

definition bset :: "board \<Rightarrow> coord \<Rightarrow> stone \<Rightarrow> error + board" where
  "bset b p v =
     bindE (py_get b (fst p)) (\<lambda>row.
     bindE (py_set row (snd p) v) (\<lambda>row'. py_set b (fst p) row'))"

section \<open>\<^verbatim>\<open>int(s)\<close> on an ASCII string\<close>

text \<open>
  \<^verbatim>\<open>int\<close> strips white space at both ends, takes one optional sign and then decimal digits,
  where single underscores may stand between digits. Anything else raises ValueError
  (\<open>None\<close> here).
\<close>

definition is_space :: "char \<Rightarrow> bool" where
  "is_space c = (c \<in> {CHR 0x09, CHR 0x0A, CHR 0x0B, CHR 0x0C, CHR 0x0D,
                       CHR 0x1C, CHR 0x1D, CHR 0x1E, CHR 0x1F, CHR 0x20})"

definition digit_val :: "char \<Rightarrow> int option" where
  "digit_val c = map_of (zip ''0123456789'' [0..9]) c"

fun py_digits :: "int \<Rightarrow> string \<Rightarrow> int option" where
  "py_digits acc [] = Some acc"
| "py_digits acc [c] = (case digit_val c of None \<Rightarrow> None | Some d \<Rightarrow> Some (10 * acc + d))"
| "py_digits acc (c # c' # cs) =
     (case digit_val c of None \<Rightarrow> None
      | Some d \<Rightarrow>
          if c' = CHR ''_''
          then (if cs = [] then None else py_digits (10 * acc + d) cs)
          else py_digits (10 * acc + d) (c' # cs))"

definition py_unsigned :: "string \<Rightarrow> int option" where
  "py_unsigned s = (if s = [] then None else py_digits 0 s)"

definition py_int :: "string \<Rightarrow> int option" where
  "py_int s =
     (let t = rev (dropWhile is_space (rev (dropWhile is_space s)))
      in case t of
           [] \<Rightarrow> None
         | c # cs \<Rightarrow>
             if c = CHR ''-'' then map_option uminus (py_unsigned cs)
             else if c = CHR ''+'' then py_unsigned cs
             else py_unsigned t)"

section \<open>Board\<close>

definition black_start :: "coord list" where
  "black_start =
     [(1, 2), (2, 2), (2, 1), (2, 3), (3, 2), (4, 1), (4, 3), (5, 2), (6, 1), (6, 3), (7, 1),
      (7, 2), (7, 3), (8, 1), (8, 2), (8, 3), (9, 1), (9, 2), (9, 3), (10, 1), (10, 2), (10, 3),
      (11, 1), (11, 3), (12, 1), (12, 2), (12, 3), (13, 1), (13, 3), (14, 2), (15, 1), (15, 3),
      (16, 2), (17, 1), (17, 2), (17, 3), (18, 2), (2, 6), (5, 6), (8, 6), (11, 6),
      (14, 6), (17, 6)]"

definition border :: "coord set" where
  "border =
     set (map (\<lambda>i. (0, i)) [0..19]) \<union> set (map (\<lambda>i. (19, i)) [0..19]) \<union>
     set (map (\<lambda>i. (i, 0)) [0..19]) \<union> set (map (\<lambda>i. (i, 19)) [0..19])"

definition locmap :: "char \<Rightarrow> int option" where
  "locmap = map_of (zip ''abcdefghijklmnopqrst'' [0..19])"

definition fill_start :: "coord \<Rightarrow> board \<Rightarrow> error + board" where
  "fill_start coord b =
     bindE (bset b (fst coord, snd coord) B) (\<lambda>b'. bset b' (fst coord, - snd coord - 1) W)"

definition Board_init :: "error + board" where
  "Board_init = foldE fill_start black_start (replicate 20 (replicate 20 Empty))"

text \<open>Every board the program builds has 20 rows of 20 cells; no operation resizes it.\<close>

definition wf_board :: "board \<Rightarrow> bool" where
  "wf_board b = (length b = 20 \<and> list_all (\<lambda>row. length row = 20) b)"

section \<open>Piece\<close>

text \<open>
  The fields of a Piece. Its \<^verbatim>\<open>_board\<close> field is a reference to the game's own board:
  the methods that read or write it take the board as an argument, and \<open>move\<close> returns
  the updated board. The sets \<^verbatim>\<open>_area\<close> and \<^verbatim>\<open>_filled\<close> are lists in iteration order.
\<close>

record Piece =
  center :: coord
  x_coord :: int
  y_coord :: int
  area :: "coord list"
  filled :: "coord list"
  unlimited :: bool

definition footprint :: "int \<Rightarrow> int \<Rightarrow> coord list" where
  "footprint x y = concat (map (\<lambda>i. map (\<lambda>j. (x + i, y + j)) [-1, 0, 1]) [-1, 0, 1])"

definition Piece_init :: "set_order \<Rightarrow> coord \<Rightarrow> board \<Rightarrow> error + Piece" where
  "Piece_init ord c b =
     (let x = fst c; y = snd c; ar = ord (footprint x y) in
      bindE (foldE (\<lambda>pos acc. bindE (bget b pos) (\<lambda>v.
                Inr (if v \<noteq> Empty then acc @ [(fst pos - x, snd pos - y)] else acc))) ar [])
        (\<lambda>offs.
      bindE (bget b (x, y)) (\<lambda>cv.
        Inr \<lparr>center = c, x_coord = x, y_coord = y, area = ar,
             filled = ord (removeAll (0, 0) offs), unlimited = (cv \<noteq> Empty)\<rparr>)))"

definition get_area_contents :: "Piece \<Rightarrow> board \<Rightarrow> error + stone set" where
  "get_area_contents p b =
     foldE (\<lambda>point types. bindE (bget b point) (\<lambda>v. Inr (insert v types))) (area p) {}"

text \<open>The \<^verbatim>\<open>while\<close> loop of the unlimited branch; \<open>None\<close> is a loop that never ends.\<close>

partial_function (option) slide :: "coord \<Rightarrow> coord \<Rightarrow> coord set \<Rightarrow> coord set option" where
  "slide loc pos valid =
     (if 0 < fst loc \<and> fst loc < 20 \<and> 0 < snd loc \<and> snd loc < 20
      then slide (fst loc + fst pos, snd loc + snd pos) pos
             (insert (fst loc + fst pos, snd loc + snd pos) valid)
      else Some valid)"

declare slide.simps [code]

fun unlimited_moves :: "coord \<Rightarrow> coord list \<Rightarrow> coord set \<Rightarrow> coord set option" where
  "unlimited_moves c [] valid = Some valid"
| "unlimited_moves c (pos # rest) valid =
     (case slide c pos valid of None \<Rightarrow> None | Some valid' \<Rightarrow> unlimited_moves c rest valid')"

definition limited_step :: "coord \<Rightarrow> coord \<Rightarrow> coord set \<Rightarrow> coord set" where
  "limited_step loc pos valid =
     (let v1 = (if 0 < fst loc + fst pos \<and> fst loc + fst pos < 20 \<and>
                   0 < snd loc + snd pos \<and> snd loc + snd pos < 20
                then insert (fst loc + fst pos, snd loc + snd pos) valid else valid);
          v2 = (if 0 < fst loc + 2 * fst pos \<and> fst loc + 2 * fst pos < 20 \<and>
                   0 < snd loc + 2 * snd pos \<and> snd loc + 2 * snd pos < 20
                then insert (fst loc + 2 * fst pos, snd loc + 2 * snd pos) v1 else v1);
          v3 = (if 0 < fst loc + 3 * fst pos \<and> fst loc + 3 * fst pos < 20 \<and>
                   0 < snd loc + 3 * snd pos \<and> snd loc + 3 * snd pos < 20
                then insert (fst loc + 3 * fst pos, snd loc + 3 * snd pos) v2 else v2)
      in v3)"

definition valid_moves :: "Piece \<Rightarrow> coord set option" where
  "valid_moves p =
     (if unlimited p then unlimited_moves (center p) (filled p) {}
      else Some (fold (limited_step (center p)) (filled p) {}))"

definition move :: "set_order \<Rightarrow> Piece \<Rightarrow> board \<Rightarrow> coord \<Rightarrow> error + (coord list \<times> board)" where
  "move ord p b location =
     (let disp_x = fst location - x_coord p; disp_y = snd location - y_coord p in
      bindE (foldE (\<lambda>position m. bindE (bget b position) (\<lambda>v.
                Inr (AList.update (fst position + disp_x, snd position + disp_y) v m)))
              (area p) [])
        (\<lambda>mov_map.
      bindE (foldE (\<lambda>position bd. bset bd position Empty) (area p) b)
        (\<lambda>b1.
      bindE (foldE (\<lambda>position bd.
                case map_of mov_map (fst position + disp_x, snd position + disp_y) of
                  None \<Rightarrow> Inl KeyError
                | Some v \<Rightarrow> bset bd (fst position + disp_x, snd position + disp_y) v)
              (area p) b1)
        (\<lambda>b2. Inr (ord (map fst mov_map), b2)))))"

section \<open>GessGame\<close>

record GessGame =
  game_state :: status
  current_player :: player
  game_board :: board

definition GessGame_init :: "error + GessGame" where
  "GessGame_init =
     bindE Board_init (\<lambda>b.
       Inr \<lparr>game_state = UNFINISHED, current_player = BLACK, game_board = b\<rparr>)"

definition resign_game :: "GessGame \<Rightarrow> GessGame" where
  "resign_game g =
     (if current_player g = BLACK then g\<lparr>game_state := WHITE_WON\<rparr>
      else g\<lparr>game_state := BLACK_WON\<rparr>)"

subsection \<open>check_obstruction\<close>

text \<open>
  The inner \<^verbatim>\<open>while\<close> loop for one point of the area. It ends either by the function's
  \<^verbatim>\<open>return True\<close> or by falling out of the loop, and then \<^verbatim>\<open>check_x, check_y\<close> keep their
  last values for the next point: they are set once, before the \<^verbatim>\<open>for\<close> loop.
\<close>

datatype walk_exit = Return_True | Fall_Through coord

partial_function (option) walk ::
  "board \<Rightarrow> coord list \<Rightarrow> coord \<Rightarrow> coord \<Rightarrow> coord \<Rightarrow> coord \<Rightarrow> int \<Rightarrow> (error + walk_exit) option"
where
  "walk b space point disp shift check scale =
     (if check \<noteq> (fst point + fst disp, snd point + snd disp)
      then (let check' = (fst point + fst shift * scale, snd point + snd shift * scale) in
            case (if check' \<notin> set space
                  then bindE (bget b check') (\<lambda>v. Inr (v \<noteq> Empty)) else Inr False) of
              Inl e \<Rightarrow> Some (Inl e)
            | Inr hit \<Rightarrow>
                if hit \<and> check' \<noteq> (fst point + fst disp, snd point + snd disp)
                then Some (Inr Return_True)
                else walk b space point disp shift check' (scale + 1))
      else Some (Inr (Fall_Through check)))"

declare walk.simps [code]

fun walk_all ::
  "board \<Rightarrow> coord list \<Rightarrow> coord \<Rightarrow> coord \<Rightarrow> coord list \<Rightarrow> coord \<Rightarrow> (error + bool) option"
where
  "walk_all b space disp shift [] check = Some (Inr False)"
| "walk_all b space disp shift (point # rest) check =
     (case walk b space point disp shift check 1 of
        None \<Rightarrow> None
      | Some (Inl e) \<Rightarrow> Some (Inl e)
      | Some (Inr Return_True) \<Rightarrow> Some (Inr True)
      | Some (Inr (Fall_Through check')) \<Rightarrow> walk_all b space disp shift rest check')"

definition check_obstruction ::
  "board \<Rightarrow> int \<Rightarrow> int \<Rightarrow> int \<Rightarrow> int \<Rightarrow> Piece \<Rightarrow> (error + bool) option"
where
  "check_obstruction b start_x start_y end_x end_y piece =
     (let disp_x = end_x - start_x;
          disp_y = end_y - start_y;
          space = area piece;
          shift_x = (if disp_x > 0 then 1 else if disp_x = 0 then 0 else -1);
          shift_y = (if disp_y > 0 then 1 else if disp_y = 0 then 0 else -1)
      in walk_all b space (disp_x, disp_y) (shift_x, shift_y) space (0, 0))"

subsection \<open>check_win\<close>

definition surround :: "board \<Rightarrow> int \<Rightarrow> int \<Rightarrow> error + stone set" where
  "surround b i j =
     foldE (\<lambda>p s. bindE (bget b p) (\<lambda>v. Inr (insert v s)))
       [(i + 1, j), (i - 1, j), (i + 1, j + 1), (i + 1, j - 1), (i - 1, j),
        (i - 1, j - 1), (i - 1, j + 1), (i, j - 1)] {}"

definition scan_cell :: "board \<Rightarrow> coord \<Rightarrow> bool \<times> bool \<Rightarrow> error + (bool \<times> bool)" where
  "scan_cell b p rings =
     bindE (surround b (fst p) (snd p)) (\<lambda>s.
     bindE (bget b p) (\<lambda>c.
       Inr (if c = Empty \<and> s = {B} then True else fst rings,
            if c = Empty \<and> s = {W} then True else snd rings)))"

definition ring_scan :: "board \<Rightarrow> error + (bool \<times> bool)" where
  "ring_scan b =
     foldE (scan_cell b) (concat (map (\<lambda>i. map (\<lambda>j. (i, j)) [1..18]) [1..18])) (False, False)"

definition check_win :: "board \<Rightarrow> error + status" where
  "check_win b =
     bindE (ring_scan b) (\<lambda>rings.
       if \<not> fst rings then Inr WHITE_WON
       else if \<not> snd rings then Inr BLACK_WON
       else Inr UNFINISHED)"

subsection \<open>make_move\<close>

text \<open>The condition of lines 267-268, and again 272-273, on one input string.\<close>

definition border_input :: "string \<Rightarrow> error + bool" where
  "border_input s =
     (case s of
        [] \<Rightarrow> Inl IndexError
      | c # rest \<Rightarrow>
          if c = CHR ''a'' then Inr True
          else if c = CHR ''t'' then Inr True
          else (case py_int rest of
                  None \<Rightarrow> Inl ValueError
                | Some n \<Rightarrow> Inr (n \<ge> 20 \<or> n \<le> 0)))"

text \<open>\<^verbatim>\<open>(get_map()[s[0]], int(s[1:]) - 1)\<close>, lines 277-278 and 293-294.\<close>

definition decode :: "string \<Rightarrow> error + coord" where
  "decode s =
     (case s of
        [] \<Rightarrow> Inl IndexError
      | c # rest \<Rightarrow>
          (case locmap c of
             None \<Rightarrow> Inl KeyError
           | Some x \<Rightarrow> (case py_int rest of None \<Rightarrow> Inl ValueError | Some n \<Rightarrow> Inr (x, n - 1))))"

type_synonym 'a outcome = "(error + 'a) option"

definition lift :: "error + 'a \<Rightarrow> ('a \<Rightarrow> 'b outcome) \<Rightarrow> 'b outcome" where
  "lift m f = (case m of Inl e \<Rightarrow> Some (Inl e) | Inr v \<Rightarrow> f v)"

definition bindO :: "'a outcome \<Rightarrow> ('a \<Rightarrow> 'b outcome) \<Rightarrow> 'b outcome" where
  "bindO m f = (case m of None \<Rightarrow> None | Some (Inl e) \<Rightarrow> Some (Inl e) | Some (Inr v) \<Rightarrow> f v)"

text \<open>Lines 303-323: the move itself, the border cleanup, the win check and the turn.\<close>

definition finish_move :: "set_order \<Rightarrow> GessGame \<Rightarrow> Piece \<Rightarrow> coord \<Rightarrow> error + (bool \<times> GessGame)" where
  "finish_move ord g moving_piece e =
     bindE (move ord moving_piece (game_board g) e) (\<lambda>(new, b1).
     bindE (foldE (\<lambda>stone bd. if stone \<in> border then bset bd stone Empty else Inr bd) new b1)
       (\<lambda>b2.
     bindE (check_win b2) (\<lambda>st.
       let g1 = g\<lparr>game_board := b2, game_state := st\<rparr> in
       if st = UNFINISHED
       then (if current_player g1 = BLACK
             then Inr (True, g1\<lparr>current_player := WHITE\<rparr>)
             else Inr (True, g1\<lparr>current_player := BLACK\<rparr>))
       else Inr (True, g1))))"

definition make_move :: "set_order \<Rightarrow> GessGame \<Rightarrow> string \<Rightarrow> string \<Rightarrow> (bool \<times> GessGame) outcome" where
  "make_move ord g start_center end_center =
     (if game_state g \<noteq> UNFINISHED then Some (Inr (False, g))
      else
      lift (border_input start_center) (\<lambda>sb. if sb then Some (Inr (False, g)) else
      lift (border_input end_center) (\<lambda>eb. if eb then Some (Inr (False, g)) else
      lift (decode start_center) (\<lambda>(start_x, start_y).
      lift (Piece_init ord (start_x, start_y) (game_board g)) (\<lambda>moving_piece.
      lift (get_area_contents moving_piece (game_board g)) (\<lambda>contents.
        if B \<in> contents \<and> W \<in> contents then Some (Inr (False, g))
        else if current_player g = BLACK \<and> W \<in> contents then Some (Inr (False, g))
        else if current_player g = WHITE \<and> B \<in> contents then Some (Inr (False, g))
        else
      lift (decode end_center) (\<lambda>(end_x, end_y).
        case valid_moves moving_piece of
          None \<Rightarrow> None
        | Some valid \<Rightarrow>
            if (end_x, end_y) \<notin> valid then Some (Inr (False, g))
            else
      bindO (check_obstruction (game_board g) start_x start_y end_x end_y moving_piece)
        (\<lambda>obstructed.
          if obstructed then Some (Inr (False, g))
          else Some (finish_move ord g moving_piece (end_x, end_y))))))))))"

section \<open>The opening position\<close>

text \<open>The board that \<open>Board_init\<close> builds (lemma \<open>Board_init_eval\<close>), and the game
  \<^verbatim>\<open>GessGame()\<close> starts from.\<close>

definition opening_board :: board where
  "opening_board = 
     [[Empty, Empty, Empty, Empty, Empty, Empty, Empty, Empty, Empty, Empty,
       Empty, Empty, Empty, Empty, Empty, Empty, Empty, Empty, Empty,
       Empty],
      [Empty, Empty, B, Empty, Empty, Empty, Empty, Empty, Empty, Empty,
       Empty, Empty, Empty, Empty, Empty, Empty, Empty, W, Empty, Empty],
      [Empty, B, B, B, Empty, Empty, B, Empty, Empty, Empty, Empty, Empty,
       Empty, W, Empty, Empty, W, W, W, Empty],
      [Empty, Empty, B, Empty, Empty, Empty, Empty, Empty, Empty, Empty,
       Empty, Empty, Empty, Empty, Empty, Empty, Empty, W, Empty, Empty],
      [Empty, B, Empty, B, Empty, Empty, Empty, Empty, Empty, Empty, Empty,
       Empty, Empty, Empty, Empty, Empty, W, Empty, W, Empty],
      [Empty, Empty, B, Empty, Empty, Empty, B, Empty, Empty, Empty, Empty,
       Empty, Empty, W, Empty, Empty, Empty, W, Empty, Empty],
      [Empty, B, Empty, B, Empty, Empty, Empty, Empty, Empty, Empty, Empty,
       Empty, Empty, Empty, Empty, Empty, W, Empty, W, Empty],
      [Empty, B, B, B, Empty, Empty, Empty, Empty, Empty, Empty, Empty,
       Empty, Empty, Empty, Empty, Empty, W, W, W, Empty],
      [Empty, B, B, B, Empty, Empty, B, Empty, Empty, Empty, Empty, Empty,
       Empty, W, Empty, Empty, W, W, W, Empty],
      [Empty, B, B, B, Empty, Empty, Empty, Empty, Empty, Empty, Empty,
       Empty, Empty, Empty, Empty, Empty, W, W, W, Empty],
      [Empty, B, B, B, Empty, Empty, Empty, Empty, Empty, Empty, Empty,
       Empty, Empty, Empty, Empty, Empty, W, W, W, Empty],
      [Empty, B, Empty, B, Empty, Empty, B, Empty, Empty, Empty, Empty,
       Empty, Empty, W, Empty, Empty, W, Empty, W, Empty],
      [Empty, B, B, B, Empty, Empty, Empty, Empty, Empty, Empty, Empty,
       Empty, Empty, Empty, Empty, Empty, W, W, W, Empty],
      [Empty, B, Empty, B, Empty, Empty, Empty, Empty, Empty, Empty, Empty,
       Empty, Empty, Empty, Empty, Empty, W, Empty, W, Empty],
      [Empty, Empty, B, Empty, Empty, Empty, B, Empty, Empty, Empty, Empty,
       Empty, Empty, W, Empty, Empty, Empty, W, Empty, Empty],
      [Empty, B, Empty, B, Empty, Empty, Empty, Empty, Empty, Empty, Empty,
       Empty, Empty, Empty, Empty, Empty, W, Empty, W, Empty],
      [Empty, Empty, B, Empty, Empty, Empty, Empty, Empty, Empty, Empty,
       Empty, Empty, Empty, Empty, Empty, Empty, Empty, W, Empty, Empty],
      [Empty, B, B, B, Empty, Empty, B, Empty, Empty, Empty, Empty, Empty,
       Empty, W, Empty, Empty, W, W, W, Empty],
      [Empty, Empty, B, Empty, Empty, Empty, Empty, Empty, Empty, Empty,
       Empty, Empty, Empty, Empty, Empty, Empty, Empty, W, Empty, Empty],
      [Empty, Empty, Empty, Empty, Empty, Empty, Empty, Empty, Empty, Empty,
       Empty, Empty, Empty, Empty, Empty, Empty, Empty, Empty, Empty,
       Empty]]"

definition opening_game :: GessGame where
  "opening_game = \<lparr>game_state = UNFINISHED, current_player = BLACK, game_board = opening_board\<rparr>"

section \<open>Reading the board cell by cell\<close>

text \<open>
  For a board of 20 rows of 20 cells and a coordinate inside the grid, \<open>bget\<close> and
  \<open>bset\<close> never raise: \<open>cell\<close> is what is read, \<open>put\<close> what is written (lemmas
  \<open>bget_in_grid\<close>, \<open>bset_in_grid\<close>).
\<close>

definition in_grid :: "coord \<Rightarrow> bool" where
  "in_grid q = (0 \<le> fst q \<and> fst q < 20 \<and> 0 \<le> snd q \<and> snd q < 20)"

definition cell :: "board \<Rightarrow> coord \<Rightarrow> stone" where
  "cell b q = b ! nat (fst q) ! nat (snd q)"

definition put :: "board \<Rightarrow> coord \<Rightarrow> stone \<Rightarrow> board" where
  "put b q v = b[nat (fst q) := (b ! nat (fst q))[nat (snd q) := v]]"

section \<open>A one-step slide on the opening board\<close>

text \<open>Black moves the piece at c3 one step to c4: the stones of rows 1 to 3 shift one
  column.\<close>

definition slid_board :: board where
  "slid_board =
     opening_board[1 := (opening_board ! 1)[2 := Empty, 3 := B],
                   2 := (opening_board ! 2)[1 := Empty, 4 := B],
                   3 := (opening_board ! 3)[2 := Empty, 3 := B]]"

definition slid_game :: GessGame where
  "slid_game = \<lparr>game_state = UNFINISHED, current_player = WHITE, game_board = slid_board\<rparr>"

section \<open>Evaluating the constructors\<close>

lemma Board_init_eval: "Board_init = Inr opening_board"
  by code_simp

lemma GessGame_init_eval: "GessGame_init = Inr opening_game"
  by (simp add: GessGame_init_def Board_init_eval bindE_def opening_game_def)

lemma set_order_ok_remdups: "set_order_ok remdups"
  by (simp add: set_order_ok_def)

section \<open>The shape of a call of make_move\<close>

lemma finish_move_result: "finish_move ord g p e = Inr (r, g') \<Longrightarrow> r"
  by (auto simp: finish_move_def bindE_def Let_def split: sum.splits prod.splits if_splits)

lemma finish_move_turn:
  "finish_move ord g p e = Inr (r, g') \<Longrightarrow>
     (current_player g' \<noteq> current_player g) = (game_state g' = UNFINISHED)"
  by (cases "current_player g")
     (auto simp: finish_move_def bindE_def Let_def split: sum.splits prod.splits if_splits)

lemma make_move_cases:
  "make_move ord g s e = Some (Inr (r, g')) \<Longrightarrow>
     (\<not> r \<and> g' = g) \<or>
     (game_state g = UNFINISHED \<and> (\<exists>p c. finish_move ord g p c = Inr (r, g')))"
  unfolding make_move_def lift_def bindO_def
  by (auto split: if_splits sum.splits option.splits prod.splits)

lemma obstructed_opening_move:
  "make_move remdups opening_game ''c3'' ''f3'' = Some (Inr (False, opening_game))"
  by code_simp

section \<open>Rejected moves\<close>

text \<open>
  C1. Whenever make_move returns False, for whatever reason, the board, the game state and
  the current player are what they were before the call.
\<close>

theorem make_move_failure_unchanged:
  "make_move ord g start_center end_center = Some (Inr (False, g')) \<Longrightarrow>
     game_board g' = game_board g \<and> game_state g' = game_state g \<and>
     current_player g' = current_player g"
  using make_move_cases [of ord g start_center end_center False g'] finish_move_result
  by blast

text \<open>On the opening board black's piece at c3 cannot slide to f3: the stones of row e
  are in its way. The call returns False and the game is the one it was.\<close>

theorem make_move_failure_unchanged_witness:
  "make_move remdups opening_game ''c3'' ''f3'' = Some (Inr (False, opening_game)) \<and>
   game_board opening_game = opening_board \<and> game_state opening_game = UNFINISHED \<and>
   current_player opening_game = BLACK"
proof -
  note h = obstructed_opening_move
  from make_move_failure_unchanged [OF h] have
    "game_board opening_game = game_board opening_game \<and>
     game_state opening_game = game_state opening_game \<and>
     current_player opening_game = current_player opening_game" .
  with h show ?thesis by (simp add: opening_game_def)
qed

section \<open>Board cells\<close>

lemma wf_board_row: "wf_board b \<Longrightarrow> 0 \<le> r \<Longrightarrow> r < 20 \<Longrightarrow> length (b ! nat r) = 20"
  by (simp add: wf_board_def list_all_length)

lemma bget_in_grid: "wf_board b \<Longrightarrow> in_grid q \<Longrightarrow> bget b q = Inr (cell b q)"
  using wf_board_row [of b "fst q"]
  by (simp add: bget_def py_get_def bindE_def in_grid_def cell_def wf_board_def)

lemma bget_wraps:
  assumes "wf_board b" "-20 \<le> fst q" "fst q < 20" "-20 \<le> snd q" "snd q < 20"
  shows "\<exists>v. bget b q = Inr v"
proof (cases "fst q < 0")
  case True
  have "length (b ! nat (fst q + 20)) = 20"
    using assms True by (intro wf_board_row) auto
  with assms True show ?thesis
    by (simp add: bget_def py_get_def bindE_def wf_board_def Let_def)
next
  case False
  have "length (b ! nat (fst q)) = 20"
    using assms False by (intro wf_board_row) auto
  with assms False show ?thesis
    by (simp add: bget_def py_get_def bindE_def wf_board_def Let_def)
qed

lemma bset_in_grid: "wf_board b \<Longrightarrow> in_grid q \<Longrightarrow> bset b q v = Inr (put b q v)"
  using wf_board_row [of b "fst q"]
  by (simp add: bset_def py_get_def py_set_def bindE_def in_grid_def put_def wf_board_def)

lemma wf_board_put: "wf_board b \<Longrightarrow> wf_board (put b q v)"
proof (cases "nat (fst q) < length b")
  case True
  assume "wf_board b"
  with True show ?thesis
    by (auto simp: wf_board_def put_def list_all_length nth_list_update)
next
  case False
  assume "wf_board b"
  with False show ?thesis
    by (simp add: put_def list_update_beyond)
qed

lemma cell_put:
  "wf_board b \<Longrightarrow> in_grid q \<Longrightarrow> in_grid q' \<Longrightarrow>
     cell (put b q v) q' = (if q' = q then v else cell b q')"
  using wf_board_row [of b "fst q"]
  by (auto simp: cell_def put_def in_grid_def wf_board_def nth_list_update prod_eq_iff)

section \<open>The loops that write the board\<close>

lemma foldE_cong:
  "(\<And>x s. x \<in> set xs \<Longrightarrow> f x s = g x s) \<Longrightarrow> foldE f xs s = foldE g xs s"
  by (induction xs arbitrary: s) (auto split: sum.splits)

lemma write_all:
  "wf_board b \<Longrightarrow> \<forall>p\<in>set ps. in_grid (k p) \<Longrightarrow>
     \<exists>b'. foldE (\<lambda>p bd. bset bd (k p) (f (k p))) ps b = Inr b' \<and> wf_board b' \<and>
          (\<forall>q. in_grid q \<longrightarrow> cell b' q = (if q \<in> k ` set ps then f q else cell b q))"
proof (induction ps arbitrary: b)
  case Nil
  then show ?case by simp
next
  case (Cons x xs)
  let ?b1 = "put b (k x) (f (k x))"
  have g: "in_grid (k x)" using Cons.prems by simp
  have w1: "wf_board ?b1" using Cons.prems by (simp add: wf_board_put)
  from Cons.IH [OF w1] Cons.prems obtain b' where
    r: "foldE (\<lambda>p bd. bset bd (k p) (f (k p))) xs ?b1 = Inr b'" and w: "wf_board b'" and
    c: "\<forall>q. in_grid q \<longrightarrow> cell b' q = (if q \<in> k ` set xs then f q else cell ?b1 q)"
    by auto
  have "foldE (\<lambda>p bd. bset bd (k p) (f (k p))) (x # xs) b = Inr b'"
    using r g Cons.prems by (simp add: bset_in_grid)
  moreover have "\<forall>q. in_grid q \<longrightarrow>
      cell b' q = (if q \<in> k ` set (x # xs) then f q else cell b q)"
    using c g Cons.prems(1) by (auto simp: cell_put)
  ultimately show ?case using w by blast
qed

lemma border_iff:
  "(r, c) \<in> border \<longleftrightarrow>
     0 \<le> r \<and> r \<le> 19 \<and> 0 \<le> c \<and> c \<le> 19 \<and> (r = 0 \<or> r = 19 \<or> c = 0 \<or> c = 19)"
  by (auto simp: border_def)

lemma border_in_grid: "q \<in> border \<Longrightarrow> in_grid q"
  by (cases q) (auto simp: border_iff in_grid_def)

lemma cleanup_all:
  "wf_board b \<Longrightarrow>
     \<exists>b'. foldE (\<lambda>stone bd. if stone \<in> border then bset bd stone Empty else Inr bd) new b = Inr b'
        \<and> wf_board b' \<and>
          (\<forall>q. in_grid q \<longrightarrow>
             cell b' q = (if q \<in> set new \<and> q \<in> border then Empty else cell b q))"
proof (induction new arbitrary: b)
  case Nil
  then show ?case by simp
next
  case (Cons x xs)
  show ?case
  proof (cases "x \<in> border")
    case True
    let ?b1 = "put b x Empty"
    have g: "in_grid x" using True by (rule border_in_grid)
    have w1: "wf_board ?b1" using Cons.prems by (simp add: wf_board_put)
    from Cons.IH [OF w1] obtain b' where
      r: "foldE (\<lambda>stone bd. if stone \<in> border then bset bd stone Empty else Inr bd) xs ?b1 = Inr b'"
      and w: "wf_board b'" and
      c: "\<forall>q. in_grid q \<longrightarrow>
            cell b' q = (if q \<in> set xs \<and> q \<in> border then Empty else cell ?b1 q)"
      by auto
    have "foldE (\<lambda>stone bd. if stone \<in> border then bset bd stone Empty else Inr bd) (x # xs) b
            = Inr b'"
      using r g True Cons.prems by (simp add: bset_in_grid)
    moreover have "\<forall>q. in_grid q \<longrightarrow>
        cell b' q = (if q \<in> set (x # xs) \<and> q \<in> border then Empty else cell b q)"
      using c g True Cons.prems by (auto simp: cell_put)
    ultimately show ?thesis using w by blast
  next
    case False
    from Cons.IH [OF Cons.prems] obtain b' where
      r: "foldE (\<lambda>stone bd. if stone \<in> border then bset bd stone Empty else Inr bd) xs b = Inr b'"
      and w: "wf_board b'" and
      c: "\<forall>q. in_grid q \<longrightarrow>
            cell b' q = (if q \<in> set xs \<and> q \<in> border then Empty else cell b q)"
      by auto
    have "foldE (\<lambda>stone bd. if stone \<in> border then bset bd stone Empty else Inr bd) (x # xs) b
            = Inr b'"
      using r False by simp
    moreover have "\<forall>q. in_grid q \<longrightarrow>
        cell b' q = (if q \<in> set (x # xs) \<and> q \<in> border then Empty else cell b q)"
      using c False by auto
    ultimately show ?thesis using w by blast
  qed
qed

lemma build_mov_map:
  "wf_board b \<Longrightarrow> \<forall>p\<in>set ps. in_grid p \<Longrightarrow> inj k \<Longrightarrow>
     \<exists>m. foldE (\<lambda>position m. bindE (bget b position) (\<lambda>v. Inr (AList.update (k position) v m)))
            ps m0 = Inr m \<and>
         fst ` set m = k ` set ps \<union> fst ` set m0 \<and>
         (\<forall>p\<in>set ps. map_of m (k p) = Some (cell b p)) \<and>
         (\<forall>q. q \<notin> k ` set ps \<longrightarrow> map_of m q = map_of m0 q)"
proof (induction ps arbitrary: m0)
  case Nil
  then show ?case by simp
next
  case (Cons x xs)
  let ?step = "\<lambda>position m. bindE (bget b position) (\<lambda>v. Inr (AList.update (k position) v m))"
  let ?m1 = "AList.update (k x) (cell b x) m0"
  have g: "in_grid x" using Cons.prems by simp
  from Cons.IH [of ?m1] Cons.prems obtain m where
    r: "foldE ?step xs ?m1 = Inr m" and
    d: "fst ` set m = k ` set xs \<union> fst ` set ?m1" and
    a: "\<forall>p\<in>set xs. map_of m (k p) = Some (cell b p)" and
    o: "\<forall>q. q \<notin> k ` set xs \<longrightarrow> map_of m q = map_of ?m1 q"
    by auto
  have 1: "foldE ?step (x # xs) m0 = Inr m"
    using r g Cons.prems(1) by (simp add: bget_in_grid bindE_def)
  have 2: "fst ` set m = k ` set (x # xs) \<union> fst ` set m0"
    using d by (auto simp: dom_update)
  have 3: "\<forall>p\<in>set (x # xs). map_of m (k p) = Some (cell b p)"
  proof
    fix p assume p: "p \<in> set (x # xs)"
    show "map_of m (k p) = Some (cell b p)"
    proof (cases "p \<in> set xs")
      case True
      with a show ?thesis by simp
    next
      case False
      with p have px: "p = x" by simp
      have "k x \<notin> k ` set xs"
        using False px \<open>inj k\<close> by (auto dest: injD)
      with o px show ?thesis by (simp add: update_conv')
    qed
  qed
  have 4: "\<forall>q. q \<notin> k ` set (x # xs) \<longrightarrow> map_of m q = map_of m0 q"
    using o by (auto simp: update_conv')
  from 1 2 3 4 show ?case by blast
qed

section \<open>The relocation of a piece\<close>

lemma near_iff: "(r = x - 1 \<or> r = x \<or> r = x + 1) \<longleftrightarrow> x - 1 \<le> r \<and> r \<le> x + (1::int)"
  by arith
lemma footprint_mem:
  "(r, c) \<in> set (footprint x y) \<longleftrightarrow>
     (r = x - 1 \<or> r = x \<or> r = x + 1) \<and> (c = y - 1 \<or> c = y \<or> c = y + 1)"
  by (simp add: footprint_def) blast
lemma footprint_iff:
  "(r, c) \<in> set (footprint x y) \<longleftrightarrow> x - 1 \<le> r \<and> r \<le> x + 1 \<and> y - 1 \<le> c \<and> c \<le> y + 1"
  unfolding footprint_mem near_iff by simp

lemma move_result:
  assumes wf: "wf_board b"
    and ok: "set_order_ok ord"
    and src: "\<forall>q\<in>set (area p). in_grid q"
    and dst: "\<forall>q\<in>set (area p). in_grid (fst q + (ex - x_coord p), snd q + (ey - y_coord p))"
  shows "\<exists>new b'. move ord p b (ex, ey) = Inr (new, b') \<and> wf_board b' \<and>
     set new = (\<lambda>q. (fst q + (ex - x_coord p), snd q + (ey - y_coord p))) ` set (area p) \<and>
     (\<forall>q. in_grid q \<longrightarrow> cell b' q =
        (if q \<in> (\<lambda>q. (fst q + (ex - x_coord p), snd q + (ey - y_coord p))) ` set (area p)
         then cell b (fst q - (ex - x_coord p), snd q - (ey - y_coord p))
         else if q \<in> set (area p) then Empty else cell b q))"
proof -
  define dx where "dx = ex - x_coord p"
  define dy where "dy = ey - y_coord p"
  define k :: "coord \<Rightarrow> coord" where "k = (\<lambda>q. (fst q + dx, snd q + dy))"
  define f :: "coord \<Rightarrow> stone" where "f = (\<lambda>q. cell b (fst q - dx, snd q - dy))"
  have injk: "inj k" by (auto simp: k_def inj_on_def prod_eq_iff)
  have fk: "\<And>q. f (k q) = cell b q" by (simp add: f_def k_def)
  from build_mov_map [OF wf src injk, of "[]"] obtain m where
    m1: "foldE (\<lambda>position m. bindE (bget b position) (\<lambda>v. Inr (AList.update (k position) v m)))
            (area p) [] = Inr m" and
    m2: "fst ` set m = k ` set (area p)" and
    m3: "\<forall>q\<in>set (area p). map_of m (k q) = Some (cell b q)"
    by auto
  from write_all [OF wf, of "area p" "\<lambda>q. q" "\<lambda>_. Empty"] src obtain b1 where
    c1: "foldE (\<lambda>position bd. bset bd position Empty) (area p) b = Inr b1" and
    c2: "wf_board b1" and
    c3: "\<forall>q. in_grid q \<longrightarrow> cell b1 q = (if q \<in> set (area p) then Empty else cell b q)"
    by auto
  have dst': "\<forall>q\<in>set (area p). in_grid (k q)" using dst by (simp add: k_def dx_def dy_def)
  from write_all [OF c2 dst', of f] obtain b2 where
    w1: "foldE (\<lambda>q bd. bset bd (k q) (f (k q))) (area p) b1 = Inr b2" and
    w2: "wf_board b2" and
    w3: "\<forall>q. in_grid q \<longrightarrow> cell b2 q = (if q \<in> k ` set (area p) then f q else cell b1 q)"
    by auto
  have "foldE (\<lambda>position bd. case map_of m (k position) of None \<Rightarrow> Inl KeyError
                 | Some v \<Rightarrow> bset bd (k position) v) (area p) b1
        = foldE (\<lambda>q bd. bset bd (k q) (f (k q))) (area p) b1"
    by (rule foldE_cong) (simp add: m3 fk)
  with w1 have w1': "foldE (\<lambda>position bd. case map_of m (k position) of None \<Rightarrow> Inl KeyError
                 | Some v \<Rightarrow> bset bd (k position) v) (area p) b1 = Inr b2"
    by simp
  have mv: "move ord p b (ex, ey) = Inr (ord (map fst m), b2)"
    using m1 c1 w1' unfolding move_def Let_def k_def dx_def dy_def fst_conv snd_conv by (simp add: bindE_def)
  have sn: "set (ord (map fst m)) = k ` set (area p)"
    using ok m2 by (simp add: set_order_ok_def)
  have "\<forall>q. in_grid q \<longrightarrow> cell b2 q =
        (if q \<in> k ` set (area p) then cell b (fst q - dx, snd q - dy)
         else if q \<in> set (area p) then Empty else cell b q)"
    using w3 c3 by (simp add: f_def)
  with mv sn w2 show ?thesis
    unfolding k_def dx_def dy_def by blast
qed

lemma Piece_init_fields:
  "Piece_init ord c b = Inr p \<Longrightarrow>
     center p = c \<and> x_coord p = fst c \<and> y_coord p = snd c \<and>
     area p = ord (footprint (fst c) (snd c))"
  by (auto simp: Piece_init_def Let_def bindE_def split: sum.splits)

lemma make_move_success:
  "make_move ord g s e = Some (Inr (True, g')) \<Longrightarrow>
   decode s = Inr (sx, sy) \<Longrightarrow> decode e = Inr (ex, ey) \<Longrightarrow>
     \<exists>p. Piece_init ord (sx, sy) (game_board g) = Inr p \<and>
         finish_move ord g p (ex, ey) = Inr (True, g')"
  unfolding make_move_def lift_def bindO_def
  by (auto split: if_splits sum.splits option.splits prod.splits)

lemma finish_move_board:
  "finish_move ord g p e = Inr (r, g') \<Longrightarrow>
     \<exists>new b1. move ord p (game_board g) e = Inr (new, b1) \<and>
       foldE (\<lambda>stone bd. if stone \<in> border then bset bd stone Empty else Inr bd) new b1
         = Inr (game_board g')"
  by (auto simp: finish_move_def bindE_def Let_def split: sum.splits prod.splits if_splits)

section \<open>Concrete moves\<close>

lemma one_step_slide: "make_move remdups opening_game ''c3'' ''c4'' = Some (Inr (True, slid_game))"
  by code_simp

section \<open>The state machine of the game\<close>

text \<open>
  C9. Once the state is BLACK_WON or WHITE_WON every call of make_move returns False and
  changes nothing; after a successful call the current player is the other colour exactly when
  the new state is UNFINISHED.
\<close>

theorem game_status_machine:
  "(game_state g \<noteq> UNFINISHED \<longrightarrow>
      make_move ord g start_center end_center = Some (Inr (False, g))) \<and>
   (make_move ord g start_center end_center = Some (Inr (True, g')) \<longrightarrow>
      (current_player g' \<noteq> current_player g) = (game_state g' = UNFINISHED))"
proof (intro conjI impI)
  assume "game_state g \<noteq> UNFINISHED"
  then show "make_move ord g start_center end_center = Some (Inr (False, g))"
    by (simp add: make_move_def)
next
  assume "make_move ord g start_center end_center = Some (Inr (True, g'))"
  from make_move_cases [OF this] obtain p c where "finish_move ord g p c = Inr (True, g')"
    by auto
  then show "(current_player g' \<noteq> current_player g) = (game_state g' = UNFINISHED)"
    by (rule finish_move_turn)
qed

theorem game_status_machine_witness:
  "game_state (resign_game opening_game) \<noteq> UNFINISHED \<and>
   make_move remdups (resign_game opening_game) ''c3'' ''c4'' =
     Some (Inr (False, resign_game opening_game)) \<and>
   make_move remdups opening_game ''c3'' ''c4'' = Some (Inr (True, slid_game)) \<and>
   current_player slid_game \<noteq> current_player opening_game \<and>
   game_state slid_game = UNFINISHED"
proof -
  have r: "game_state (resign_game opening_game) \<noteq> UNFINISHED"
    by (simp add: resign_game_def opening_game_def)
  from game_status_machine [of "resign_game opening_game" remdups "''c3''" "''c4''"] r
  have a: "make_move remdups (resign_game opening_game) ''c3'' ''c4'' =
     Some (Inr (False, resign_game opening_game))" by blast
  from game_status_machine [of opening_game remdups "''c3''" "''c4''" slid_game] one_step_slide
  have b: "(current_player slid_game \<noteq> current_player opening_game) =
     (game_state slid_game = UNFINISHED)" by blast
  have c: "game_state slid_game = UNFINISHED" by (simp add: slid_game_def)
  from r a b c one_step_slide show ?thesis by simp
qed

section \<open>What a successful move does to the board\<close>

text \<open>
  C4. After a successful make_move between two strictly interior anchors, with displacement
  \<open>D = e - s\<close>: a destination cell (source cell + D) off the border ring holds what its source
  cell held, a destination cell on the border ring is Empty, a source cell that is no
  destination cell is Empty, and every other cell is unchanged. Nothing is assumed about the
  two footprints being disjoint.
\<close>

theorem relocation:
  assumes wf: "wf_board (game_board g)"
    and ok: "set_order_ok ord"
    and ds: "decode start_center = Inr (sx, sy)"
    and de: "decode end_center = Inr (ex, ey)"
    and s: "0 < sx" "sx < 19" "0 < sy" "sy < 19"
    and e: "0 < ex" "ex < 19" "0 < ey" "ey < 19"
    and mm: "make_move ord g start_center end_center = Some (Inr (True, g'))"
    and rc: "0 \<le> r" "r < 20" "0 \<le> c" "c < 20"
  shows "bget (game_board g') (r, c) =
     (if (r, c) \<in> (\<lambda>q. (fst q + (ex - sx), snd q + (ey - sy))) ` set (footprint sx sy)
      then (if (r, c) \<in> border then Inr Empty
            else bget (game_board g) (r - (ex - sx), c - (ey - sy)))
      else if (r, c) \<in> set (footprint sx sy) then Inr Empty
      else bget (game_board g) (r, c))"
proof -
  let ?k = "\<lambda>q. (fst q + (ex - sx), snd q + (ey - sy))"
  from make_move_success [OF mm ds de] obtain p where
    pi: "Piece_init ord (sx, sy) (game_board g) = Inr p" and
    fm: "finish_move ord g p (ex, ey) = Inr (True, g')" by blast
  from Piece_init_fields [OF pi] have
    px: "x_coord p = sx" and py: "y_coord p = sy" and ar: "area p = ord (footprint sx sy)"
    by simp_all
  have sa: "set (area p) = set (footprint sx sy)"
    using ok ar by (simp add: set_order_ok_def)
  have src: "\<forall>q\<in>set (area p). in_grid q"
    using s unfolding sa by (auto simp: footprint_iff in_grid_def)
  have dst: "\<forall>q\<in>set (area p). in_grid (fst q + (ex - x_coord p), snd q + (ey - y_coord p))"
    using e unfolding sa px py by (auto simp: footprint_iff in_grid_def)
  from move_result [OF wf ok src dst] obtain new b1 where
    mv: "move ord p (game_board g) (ex, ey) = Inr (new, b1)" and w1: "wf_board b1" and
    sn: "set new = ?k ` set (footprint sx sy)" and
    c1: "\<forall>q. in_grid q \<longrightarrow> cell b1 q =
        (if q \<in> ?k ` set (footprint sx sy)
         then cell (game_board g) (fst q - (ex - sx), snd q - (ey - sy))
         else if q \<in> set (footprint sx sy) then Empty else cell (game_board g) q)"
    unfolding sa px py by blast
  from cleanup_all [OF w1, of new] obtain b2 where
    cl: "foldE (\<lambda>stone bd. if stone \<in> border then bset bd stone Empty else Inr bd) new b1 = Inr b2"
    and w2: "wf_board b2" and
    c2: "\<forall>q. in_grid q \<longrightarrow> cell b2 q = (if q \<in> set new \<and> q \<in> border then Empty else cell b1 q)"
    by blast
  from finish_move_board [OF fm] mv cl have gb: "game_board g' = b2" by auto
  have g: "in_grid (r, c)" using rc by (simp add: in_grid_def)
  have src_ok: "(r, c) \<in> ?k ` set (footprint sx sy) \<Longrightarrow> in_grid (r - (ex - sx), c - (ey - sy))"
    using s by (auto simp: footprint_iff in_grid_def)
  show ?thesis
    using c1 c2 g src_ok wf w2 sn unfolding gb
    by (auto simp: bget_in_grid)
qed

lemma wf_opening_board: "wf_board opening_board"
  by (simp add: wf_board_def opening_board_def)

lemma decode_c3: "decode ''c3'' = Inr (2, 2)"
  by code_simp

lemma decode_c4: "decode ''c4'' = Inr (2, 3)"
  by code_simp

text \<open>The slide from c3 to c4 overlaps its own footprint in six cells. The stone of
  \<open>(2, 3)\<close> is at \<open>(2, 4)\<close> afterwards, \<open>(2, 1)\<close>, left behind, is Empty, the cell
  \<open>(2, 2)\<close>, source and destination at once, holds the stone of \<open>(2, 1)\<close>, and
  \<open>(5, 6)\<close>, outside both footprints, keeps its stone.\<close>

theorem relocation_witness:
  "wf_board (game_board opening_game) \<and> set_order_ok remdups \<and>
   decode ''c3'' = Inr (2, 2) \<and> decode ''c4'' = Inr (2, 3) \<and>
   make_move remdups opening_game ''c3'' ''c4'' = Some (Inr (True, slid_game)) \<and>
   bget (game_board slid_game) (2, 4) = bget (game_board opening_game) (2, 3) \<and>
   bget (game_board slid_game) (2, 1) = Inr Empty \<and>
   bget (game_board slid_game) (2, 2) = bget (game_board opening_game) (2, 1) \<and>
   bget (game_board slid_game) (5, 6) = bget (game_board opening_game) (5, 6)"
proof -
  have wf: "wf_board (game_board opening_game)"
    by (simp add: opening_game_def wf_opening_board)
  note r = relocation [OF wf set_order_ok_remdups decode_c3 decode_c4 _ _ _ _ _ _ _ _
      one_step_slide]
  have fp: "set (footprint 2 2) =
      {(1, 1), (1, 2), (1, 3), (2, 1), (2, 2), (2, 3), (3, 1), (3, 2), (3, 3)}"
    by (simp add: footprint_def)
  have a: "bget (game_board slid_game) (2, 4) = bget (game_board opening_game) (2, 3)"
    using r [of 2 4] by (simp add: fp border_iff)
  have b: "bget (game_board slid_game) (2, 1) = Inr Empty"
    using r [of 2 1] by (simp add: fp border_iff)
  have c: "bget (game_board slid_game) (2, 2) = bget (game_board opening_game) (2, 1)"
    using r [of 2 2] by (simp add: fp border_iff)
  have d: "bget (game_board slid_game) (5, 6) = bget (game_board opening_game) (5, 6)"
    using r [of 5 6] by (simp add: fp border_iff)
  from wf set_order_ok_remdups decode_c3 decode_c4 one_step_slide a b c d
  show ?thesis by simp
qed

end
